theory Spec2Isabelle
  imports Complex_Main
begin

section \<open>The document the script runs against\<close>

text \<open>
  \<^verbatim>\<open>script.js\<close> is a set of event listeners over the DOM. The embedding keeps the DOM as an
  explicit state that every listener takes and returns. Elements are identified by numbers.
  The tree structure and the tag names are fixed per page (the script never edits the tree);
  class lists, attributes, styles, focus, scroll position and layout rectangles are mutable
  state.
\<close>

type_synonym elem = nat

text \<open>The JavaScript values the script compares with \<^verbatim>\<open>===\<close>: an out-of-range index of a
  NodeList is \<^verbatim>\<open>undefined\<close>, \<^verbatim>\<open>document.activeElement\<close> is an element or \<^verbatim>\<open>null\<close>.\<close>

datatype jsval = Undefined | Null | Elem elem

datatype error = TypeError | SyntaxError

text \<open>Calls into the browser whose effect is not a DOM mutation are logged in order:
  \<^verbatim>\<open>e.preventDefault()\<close>, \<^verbatim>\<open>el.focus()\<close> and
  \<^verbatim>\<open>window.scrollTo({top: y, behavior: 'smooth'})\<close>.\<close>

datatype call = PreventDefault | Focus elem | ScrollToSmooth real

text \<open>What \<^verbatim>\<open>document.querySelector(sel)\<close> does for a selector taken from a link's href: it
  returns the first matching element, or \<^verbatim>\<open>null\<close>, or throws a SyntaxError on a string that
  is not a selector.\<close>

datatype qresult = Found elem | NotFound | Invalid

record state =
  classList :: "elem \<Rightarrow> string list"
  attributes :: "elem \<Rightarrow> string \<Rightarrow> string option"
  style_transform :: "elem \<Rightarrow> string"
  body_overflow :: string
  activeElement :: "elem option"
  pageYOffset :: real
  innerHeight :: real
  rect_top :: "elem \<Rightarrow> real"
  rect_bottom :: "elem \<Rightarrow> real"
  lastScroll :: real
  observers :: "elem list list"
  calls :: "call list"
  uncaught :: "error list"

record page =
  elements :: "elem list"
  tagName :: "elem \<Rightarrow> string"
  ancestors :: "elem \<Rightarrow> elem list"
  otherSelector :: "state \<Rightarrow> string \<Rightarrow> qresult"
  focusable :: "(elem \<Rightarrow> string list) \<Rightarrow> (elem \<Rightarrow> string \<Rightarrow> string option) \<Rightarrow> elem \<Rightarrow> bool"
  hasIntersectionObserver :: bool

text \<open>
  \<open>elements\<close> lists the page's elements in document order, \<open>ancestors e\<close> the proper
  ancestors of \<open>e\<close> from its parent upwards (the path a bubbling event takes after \<open>e\<close>
  itself). \<open>observers\<close> holds, for each IntersectionObserver the script has created, the
  targets it still observes. \<open>uncaught\<close> collects the exceptions that escaped a listener.
  \<open>focusable\<close> is the browser's decision whether \<^verbatim>\<open>focus()\<close> can move the focus to an
  element; it depends on the tag, on the attributes (href, tabindex, disabled) and, through
  the stylesheet, on the class lists. \<open>otherSelector\<close> is the selector engine on the
  selectors that \<open>querySelector\<close> below does not interpret.

  Numbers are JavaScript numbers: finite IEEE 754 doubles, kept as the real numbers they
  denote. Comparisons are exact; the result of an addition or subtraction is rounded to the
  nearest double (\<open>binary64\<close> below).
\<close>

subsection \<open>Double arithmetic\<close>

text \<open>\<open>ilog2 n\<close> is the position of the highest set bit of \<open>n\<close>, \<open>binade a\<close> the
  exponent \<open>e\<close> with \<open>2^e \<le> a < 2^(e+1)\<close> for a positive \<open>a\<close>. A double has 53
  significant bits, so doubles in that binade are the multiples of \<open>2^(e-52)\<close> (of
  \<open>2^(-1074)\<close> below the normal range); a real is rounded to the nearest of them, a tie to the
  one with an even significand. Overflow to infinity (beyond \<open>2^1024\<close>) is outside the model.\<close>

fun ilog2 :: "nat \<Rightarrow> nat" where
  "ilog2 n = (if n < 2 then 0 else Suc (ilog2 (n div 2)))"

declare ilog2.simps [simp del]

definition pow2 :: "int \<Rightarrow> real" where
  "pow2 k = (if 0 \<le> k then 2 ^ nat k else 1 / 2 ^ nat (- k))"

definition binade :: "real \<Rightarrow> int" where
  "binade a =
     (if 1 \<le> a then int (ilog2 (nat \<lfloor>a\<rfloor>))
      else (let k = int (ilog2 (nat \<lfloor>1 / a\<rfloor>))
            in if a * pow2 k = 1 then - k else - k - 1))"

definition round_half_even :: "real \<Rightarrow> int" where
  "round_half_even r =
     (let f = \<lfloor>r\<rfloor>; d = r - of_int f
      in if d < 1 / 2 then f else if 1 / 2 < d then f + 1 else if even f then f else f + 1)"

definition binary64 :: "real \<Rightarrow> real" where
  "binary64 x =
     (if x = 0 then 0
      else (let e = max (binade \<bar>x\<bar>) (- 1022); q = pow2 (e - 52)
            in of_int (round_half_even (x / q)) * q))"

subsection \<open>DOM primitives\<close>

definition classList_contains :: "state \<Rightarrow> elem \<Rightarrow> string \<Rightarrow> bool" where
  "classList_contains s e c = (c \<in> set (classList s e))"

definition classList_add :: "elem \<Rightarrow> string \<Rightarrow> state \<Rightarrow> state" where
  "classList_add e c s =
     (if c \<in> set (classList s e) then s
      else s\<lparr>classList := (classList s)(e := classList s e @ [c])\<rparr>)"

definition classList_remove :: "elem \<Rightarrow> string \<Rightarrow> state \<Rightarrow> state" where
  "classList_remove e c s =
     (if c \<in> set (classList s e)
      then s\<lparr>classList := (classList s)(e := removeAll c (classList s e))\<rparr>
      else s)"

definition classList_toggle :: "elem \<Rightarrow> string \<Rightarrow> state \<Rightarrow> state" where
  "classList_toggle e c s =
     (if c \<in> set (classList s e) then classList_remove e c s else classList_add e c s)"

definition setAttribute :: "elem \<Rightarrow> string \<Rightarrow> string \<Rightarrow> state \<Rightarrow> state" where
  "setAttribute e k v s = s\<lparr>attributes := (attributes s)(e := (attributes s e)(k \<mapsto> v))\<rparr>"

definition getAttribute :: "state \<Rightarrow> elem \<Rightarrow> string \<Rightarrow> string option" where
  "getAttribute s e k = attributes s e k"

definition getElementById :: "page \<Rightarrow> state \<Rightarrow> string \<Rightarrow> elem option" where
  "getElementById pg s i = find (\<lambda>e. attributes s e ''id'' = Some i) (elements pg)"

text \<open>
  \<^verbatim>\<open>document.querySelector\<close> on the strings an href beginning with \<^verbatim>\<open>#\<close> gives it.
  \<^verbatim>\<open>#\<close> followed by a CSS identifier made of ASCII letters, digits, \<^verbatim>\<open>_\<close> and \<^verbatim>\<open>-\<close>,
  beginning with a letter or \<^verbatim>\<open>_\<close>, is an id selector: the result is the first element in
  document order with that id, or null. \<^verbatim>\<open>#\<close> followed by a digit, \<^verbatim>\<open>#\<close> alone and the
  empty string are not selectors: the call throws. Every other string is left to the
  page's \<open>otherSelector\<close>.
\<close>

definition ident_start :: "char \<Rightarrow> bool" where
  "ident_start c = (c \<in> set ''abcdefghijklmnopqrstuvwxyzABCDEFGHIJKLMNOPQRSTUVWXYZ_'')"

definition ident_char :: "char \<Rightarrow> bool" where
  "ident_char c = (ident_start c \<or> c \<in> set ''0123456789-'')"

definition is_identifier :: "string \<Rightarrow> bool" where
  "is_identifier i = (case i of [] \<Rightarrow> False | c # cs \<Rightarrow> ident_start c \<and> list_all ident_char cs)"

definition digit_led :: "string \<Rightarrow> bool" where
  "digit_led i = (case i of [] \<Rightarrow> False | c # cs \<Rightarrow> c \<in> set ''0123456789'')"

definition querySelector :: "page \<Rightarrow> state \<Rightarrow> string \<Rightarrow> qresult" where
  "querySelector pg s sel =
     (case sel of
        [] \<Rightarrow> Invalid
      | c # i \<Rightarrow>
          if c = CHR ''#'' then
            (if is_identifier i
             then (case getElementById pg s i of None \<Rightarrow> NotFound | Some e \<Rightarrow> Found e)
             else if i = [] \<or> digit_led i then Invalid
             else otherSelector pg s sel)
          else otherSelector pg s sel)"

definition node_contains :: "page \<Rightarrow> elem \<Rightarrow> elem \<Rightarrow> bool" where
  "node_contains pg a b = (a = b \<or> a \<in> set (ancestors pg b))"

definition preventDefault :: "state \<Rightarrow> state" where
  "preventDefault s = s\<lparr>calls := calls s @ [PreventDefault]\<rparr>"

text \<open>\<^verbatim>\<open>el.focus()\<close> makes \<open>el\<close> the active element when \<open>el\<close> is focusable, and does
  nothing to the focus otherwise (a \<^verbatim>\<open>div\<close> without tabindex, an \<^verbatim>\<open>a\<close> without href, a
  hidden or disabled control). The call is logged either way.\<close>

definition is_focusable :: "page \<Rightarrow> state \<Rightarrow> elem \<Rightarrow> bool" where
  "is_focusable pg s e = focusable pg (classList s) (attributes s) e"

definition focus :: "page \<Rightarrow> elem \<Rightarrow> state \<Rightarrow> state" where
  "focus pg e s =
     (if is_focusable pg s e
      then s\<lparr>activeElement := Some e, calls := calls s @ [Focus e]\<rparr>
      else s\<lparr>calls := calls s @ [Focus e]\<rparr>)"

definition scrollTo :: "real \<Rightarrow> state \<Rightarrow> state" where
  "scrollTo y s = s\<lparr>calls := calls s @ [ScrollToSmooth y]\<rparr>"

definition item :: "elem list \<Rightarrow> int \<Rightarrow> jsval" where
  "item xs i = (if 0 \<le> i \<and> i < int (length xs) then Elem (xs ! nat i) else Undefined)"

definition active_value :: "state \<Rightarrow> jsval" where
  "active_value s = (case activeElement s of None \<Rightarrow> Null | Some e \<Rightarrow> Elem e)"

text \<open>A listener either runs to its end or throws; what it had mutated before the throw
  stays. An exception that escapes a listener is reported and the dispatch goes on.\<close>

type_synonym outcome = "(error \<times> state) + state"

fun settle :: "outcome \<Rightarrow> state" where
  "settle (Inr s) = s"
| "settle (Inl (err, s)) = s\<lparr>uncaught := uncaught s @ [err]\<rparr>"

section \<open>The script\<close>

text \<open>The module-level constants and the node lists each \<^verbatim>\<open>init...\<close> function captures
  when it registers its listeners.\<close>

record script =
  mobileMenuToggle :: "elem option"
  navLinks :: "elem option"
  navbar :: "elem option"
  navLinksArray :: "elem list"
  anchorLinks :: "elem list"
  buttons :: "elem list"
  focusableElements :: "elem list"

subsection \<open>Mobile navigation toggle (\<^verbatim>\<open>initMobileMenu\<close>)\<close>

definition toggle_click :: "elem \<Rightarrow> elem \<Rightarrow> state \<Rightarrow> state" where
  "toggle_click t m s =
     (let isActive = classList_contains s m ''active'';
          s1 = classList_toggle m ''active'' s;
          s2 = classList_toggle t ''active'' s1;
          s3 = setAttribute t ''aria-expanded'' (if \<not> isActive then ''true'' else ''false'') s2
      in s3\<lparr>body_overflow := (if isActive then [] else ''hidden'')\<rparr>)"

definition close_menu :: "elem \<Rightarrow> elem \<Rightarrow> state \<Rightarrow> state" where
  "close_menu t m s =
     (let s1 = classList_remove m ''active'' s;
          s2 = classList_remove t ''active'' s1;
          s3 = setAttribute t ''aria-expanded'' ''false'' s2
      in s3\<lparr>body_overflow := []\<rparr>)"

definition link_click :: "elem \<Rightarrow> elem \<Rightarrow> state \<Rightarrow> state" where
  "link_click t m s = close_menu t m s"

definition outside_click :: "page \<Rightarrow> elem \<Rightarrow> elem \<Rightarrow> elem \<Rightarrow> state \<Rightarrow> state" where
  "outside_click pg t m target s =
     (let isClickInsideNav = node_contains pg m target;
          isClickOnToggle = node_contains pg t target
      in if \<not> isClickInsideNav \<and> \<not> isClickOnToggle \<and> classList_contains s m ''active''
         then close_menu t m s else s)"

subsection \<open>Navbar scroll effect (\<^verbatim>\<open>initNavbarScroll\<close>)\<close>

definition scrollThreshold :: real where
  "scrollThreshold = 50"

definition navbar_scroll :: "elem \<Rightarrow> state \<Rightarrow> state" where
  "navbar_scroll n s =
     (let currentScroll = pageYOffset s;
          s1 = (if currentScroll > scrollThreshold then classList_add n ''scrolled'' s
                else classList_remove n ''scrolled'' s)
      in s1\<lparr>lastScroll := currentScroll\<rparr>)"

subsection \<open>Scroll animations (\<^verbatim>\<open>initScrollAnimations\<close>, \<^verbatim>\<open>checkInitialView\<close>)\<close>

definition animatedElements :: "page \<Rightarrow> state \<Rightarrow> elem list" where
  "animatedElements pg s =
     filter (\<lambda>e. classList_contains s e ''fade-in'' \<or> classList_contains s e ''fade-in-up'')
       (elements pg)"

definition unobserve :: "nat \<Rightarrow> elem \<Rightarrow> state \<Rightarrow> state" where
  "unobserve i e s =
     (if i < length (observers s)
      then s\<lparr>observers := (observers s)[i := removeAll e (observers s ! i)]\<rparr> else s)"

fun observer_callback :: "nat \<Rightarrow> (elem \<times> bool) list \<Rightarrow> state \<Rightarrow> state" where
  "observer_callback i [] s = s"
| "observer_callback i ((target, isIntersecting) # entries) s =
     observer_callback i entries
       (if isIntersecting then unobserve i target (classList_add target ''visible'' s) else s)"

definition initScrollAnimations :: "page \<Rightarrow> state \<Rightarrow> state" where
  "initScrollAnimations pg s =
     (if \<not> hasIntersectionObserver pg
      then fold (\<lambda>el. classList_add el ''visible'') (animatedElements pg s) s
      else s\<lparr>observers := observers s @ [animatedElements pg s]\<rparr>)"

definition checkInitialView :: "page \<Rightarrow> state \<Rightarrow> state" where
  "checkInitialView pg s =
     fold (\<lambda>el s'. let isInViewport = (rect_top s' el < innerHeight s' \<and> rect_bottom s' el > 0)
                  in if isInViewport then classList_add el ''visible'' s' else s')
       (animatedElements pg s) s"

subsection \<open>Smooth scroll for anchor links (\<^verbatim>\<open>initSmoothScroll\<close>)\<close>

definition headerOffset :: real where
  "headerOffset = 80"

text \<open>\<^verbatim>\<open>document.querySelector(href)\<close> turns its argument into a string: a missing attribute
  (\<^verbatim>\<open>null\<close>) becomes the selector \<^verbatim>\<open>null\<close>.\<close>

definition selector_of :: "string option \<Rightarrow> string" where
  "selector_of href = (case href of None \<Rightarrow> ''null'' | Some h \<Rightarrow> h)"

definition anchor_click :: "page \<Rightarrow> elem \<Rightarrow> state \<Rightarrow> outcome" where
  "anchor_click pg anchor s =
     (let href = getAttribute s anchor ''href''
      in if href = Some ''#'' \<or> href = Some [] then Inr s
         else case querySelector pg s (selector_of href) of
                Invalid \<Rightarrow> Inl (SyntaxError, s)
              | NotFound \<Rightarrow> Inr s
              | Found target \<Rightarrow>
                  (let s1 = preventDefault s;
                       elementPosition = rect_top s1 target;
                       offsetPosition =
                         binary64 (binary64 (elementPosition + pageYOffset s1) - headerOffset)
                   in Inr (scrollTo offsetPosition s1)))"

subsection \<open>Button hover effects (\<^verbatim>\<open>initButtonEffects\<close>)\<close>

definition button_mouseenter :: "elem \<Rightarrow> state \<Rightarrow> state" where
  "button_mouseenter b s =
     s\<lparr>style_transform := (style_transform s)(b := ''translateY(-2px) scale(1.02)'')\<rparr>"

definition button_mouseleave :: "elem \<Rightarrow> state \<Rightarrow> state" where
  "button_mouseleave b s =
     s\<lparr>style_transform := (style_transform s)(b := ''translateY(0) scale(1)'')\<rparr>"

subsection \<open>Keyboard navigation (\<^verbatim>\<open>initKeyboardNavigation\<close>)\<close>

text \<open>The document's keydown listener. It tests \<^verbatim>\<open>navLinks\<close> for null, and then uses
  \<^verbatim>\<open>mobileMenuToggle\<close> without a test: on a null toggle the second statement of the body
  throws, after the first has run.\<close>

definition escape_keydown :: "page \<Rightarrow> script \<Rightarrow> string \<Rightarrow> state \<Rightarrow> outcome" where
  "escape_keydown pg sc key s =
     (case navLinks sc of
        None \<Rightarrow> Inr s
      | Some m \<Rightarrow>
          if key = ''Escape'' \<and> classList_contains s m ''active''
          then (let s1 = classList_remove m ''active'' s
                in case mobileMenuToggle sc of
                     None \<Rightarrow> Inl (TypeError, s1)
                   | Some t \<Rightarrow>
                       (let s2 = classList_remove t ''active'' s1;
                            s3 = setAttribute t ''aria-expanded'' ''false'' s2;
                            s4 = s3\<lparr>body_overflow := []\<rparr>
                        in Inr (focus pg t s4)))
          else Inr s)"

text \<open>\<^verbatim>\<open>x.focus()\<close> on a value read from the node list: \<^verbatim>\<open>undefined.focus()\<close> throws.\<close>

definition focus_value :: "page \<Rightarrow> jsval \<Rightarrow> state \<Rightarrow> outcome" where
  "focus_value pg v s = (case v of Elem e \<Rightarrow> Inr (focus pg e s) | _ \<Rightarrow> Inl (TypeError, s))"

definition trap_keydown ::
  "page \<Rightarrow> elem list \<Rightarrow> elem \<Rightarrow> string \<Rightarrow> bool \<Rightarrow> state \<Rightarrow> outcome" where
  "trap_keydown pg focusableElems m key shiftKey s =
     (if \<not> classList_contains s m ''active'' then Inr s
      else let firstElement = item focusableElems 0;
               lastElement = item focusableElems (int (length focusableElems) - 1)
           in if key = ''Tab''
              then if shiftKey
                   then (if active_value s = firstElement
                         then focus_value pg lastElement (preventDefault s) else Inr s)
                   else (if active_value s = lastElement
                         then focus_value pg firstElement (preventDefault s) else Inr s)
              else Inr s)"

subsection \<open>Initialisation (\<^verbatim>\<open>init\<close>)\<close>

definition has_hash_href :: "state \<Rightarrow> elem \<Rightarrow> bool" where
  "has_hash_href s e =
     (case attributes s e ''href'' of Some (c # _) \<Rightarrow> c = CHR ''#'' | _ \<Rightarrow> False)"

definition is_focusable_selector :: "page \<Rightarrow> state \<Rightarrow> elem \<Rightarrow> bool" where
  "is_focusable_selector pg s e =
     (tagName pg e = ''a'' \<or> tagName pg e = ''button'' \<or>
      (case attributes s e ''tabindex'' of None \<Rightarrow> False | Some v \<Rightarrow> v \<noteq> ''-1''))"

definition load :: "page \<Rightarrow> state \<Rightarrow> script" where
  "load pg s =
     (let toggle = getElementById pg s ''mobileMenuToggle'';
          links = getElementById pg s ''navLinks''
      in \<lparr> mobileMenuToggle = toggle,
           navLinks = links,
           navbar = getElementById pg s ''navbar'',
           navLinksArray = filter (\<lambda>e. classList_contains s e ''nav-link'') (elements pg),
           anchorLinks = filter (\<lambda>e. tagName pg e = ''a'' \<and> has_hash_href s e) (elements pg),
           buttons = filter (\<lambda>e. classList_contains s e ''btn-primary'') (elements pg),
           focusableElements =
             (case (links, toggle) of
                (Some m, Some t) \<Rightarrow>
                  filter (\<lambda>e. m \<in> set (ancestors pg e) \<and> is_focusable_selector pg s e)
                    (elements pg)
              | _ \<Rightarrow> []) \<rparr>)"

text \<open>The script is taken to run on a parsed document (\<^verbatim>\<open>readyState\<close> is not
  \<^verbatim>\<open>loading\<close>), so the module constants and the node lists of the \<^verbatim>\<open>init...\<close> functions
  are read from the same document. The listeners registered are determined by the
  resulting record; the only state \<^verbatim>\<open>init\<close> changes is the scroll variable and what
  \<^verbatim>\<open>initScrollAnimations\<close> does.\<close>

definition init :: "page \<Rightarrow> state \<Rightarrow> script \<times> state" where
  "init pg s =
     (let sc = load pg s;
          s1 = (case navbar sc of None \<Rightarrow> s | Some n \<Rightarrow> s\<lparr>lastScroll := 0\<rparr>)
      in (sc, initScrollAnimations pg s1))"

section \<open>Events\<close>

text \<open>
  What the browser delivers after initialisation: a click or a keydown on a target element
  (both bubble to the document), a scroll to a new vertical offset, an intersection
  notification of one observer, the expiry of the 100 ms timer, pointer enter and leave
  on an element (these do not bubble), and a call of \<^verbatim>\<open>window.reinitAnimations\<close>.
\<close>

datatype event =
    Click elem
  | Keydown elem string bool
  | Scroll real
  | Intersection nat "(elem \<times> bool) list"
  | Timeout
  | MouseEnter elem
  | MouseLeave elem
  | Reinit

text \<open>The click listeners of one element, in the order the script registered them.\<close>

definition element_click :: "page \<Rightarrow> script \<Rightarrow> elem \<Rightarrow> state \<Rightarrow> state" where
  "element_click pg sc e s =
     (let s2 = (case (mobileMenuToggle sc, navLinks sc) of
                  (Some t, Some m) \<Rightarrow>
                    (let s1 = (if e = t then toggle_click t m s else s)
                     in if e \<in> set (navLinksArray sc) then link_click t m s1 else s1)
                | _ \<Rightarrow> s)
      in if e \<in> set (anchorLinks sc) then settle (anchor_click pg e s2) else s2)"

definition document_click :: "page \<Rightarrow> script \<Rightarrow> elem \<Rightarrow> state \<Rightarrow> state" where
  "document_click pg sc target s =
     (case (mobileMenuToggle sc, navLinks sc) of
        (Some t, Some m) \<Rightarrow> outside_click pg t m target s
      | _ \<Rightarrow> s)"

definition navLinks_keydown :: "page \<Rightarrow> script \<Rightarrow> elem \<Rightarrow> string \<Rightarrow> bool \<Rightarrow> state \<Rightarrow> state" where
  "navLinks_keydown pg sc target key shiftKey s =
     (case (navLinks sc, mobileMenuToggle sc) of
        (Some m, Some t) \<Rightarrow>
          if node_contains pg m target
          then settle (trap_keydown pg (focusableElements sc) m key shiftKey s) else s
      | _ \<Rightarrow> s)"

fun fire :: "page \<Rightarrow> script \<Rightarrow> event \<Rightarrow> state \<Rightarrow> state" where
  "fire pg sc (Click target) s =
     document_click pg sc target (fold (element_click pg sc) (target # ancestors pg target) s)"
| "fire pg sc (Keydown target key shiftKey) s =
     settle (escape_keydown pg sc key (navLinks_keydown pg sc target key shiftKey s))"
| "fire pg sc (Scroll y) s =
     (case navbar sc of None \<Rightarrow> s\<lparr>pageYOffset := y\<rparr>
      | Some n \<Rightarrow> navbar_scroll n (s\<lparr>pageYOffset := y\<rparr>))"
| "fire pg sc (Intersection i entries) s =
     (if i < length (observers s) then observer_callback i entries s else s)"
| "fire pg sc Timeout s = checkInitialView pg s"
| "fire pg sc (MouseEnter e) s = (if e \<in> set (buttons sc) then button_mouseenter e s else s)"
| "fire pg sc (MouseLeave e) s = (if e \<in> set (buttons sc) then button_mouseleave e s else s)"
| "fire pg sc Reinit s = initScrollAnimations pg s"

fun run :: "page \<Rightarrow> script \<Rightarrow> event list \<Rightarrow> state \<Rightarrow> state" where
  "run pg sc [] s = s"
| "run pg sc (ev # evs) s = run pg sc evs (fire pg sc ev s)"

section \<open>Properties\<close>

subsection \<open>The state of the menu\<close>

text \<open>The four places where the script records whether the menu is open: the class
  \<^verbatim>\<open>active\<close> on the menu container and on the toggle, the toggle's
  \<^verbatim>\<open>aria-expanded\<close> attribute and the body's overflow style.\<close>

definition menu_open :: "elem \<Rightarrow> elem \<Rightarrow> state \<Rightarrow> bool" where
  "menu_open t m s =
     (classList_contains s m ''active'' \<and> classList_contains s t ''active'' \<and>
      getAttribute s t ''aria-expanded'' = Some ''true'' \<and> body_overflow s = ''hidden'')"

definition menu_closed :: "elem \<Rightarrow> elem \<Rightarrow> state \<Rightarrow> bool" where
  "menu_closed t m s =
     (\<not> classList_contains s m ''active'' \<and> \<not> classList_contains s t ''active'' \<and>
      getAttribute s t ''aria-expanded'' = Some ''false'' \<and> body_overflow s = [])"

definition menu_consistent :: "elem \<Rightarrow> elem \<Rightarrow> state \<Rightarrow> bool" where
  "menu_consistent t m s = (menu_open t m s \<or> menu_closed t m s)"

definition menu_view :: "elem \<Rightarrow> elem \<Rightarrow> state \<Rightarrow> bool \<times> bool \<times> string option \<times> string" where
  "menu_view t m s =
     (classList_contains s m ''active'', classList_contains s t ''active'',
      getAttribute s t ''aria-expanded'', body_overflow s)"

definition scrolled_view :: "script \<Rightarrow> state \<Rightarrow> bool option" where
  "scrolled_view sc s = map_option (\<lambda>n. classList_contains s n ''scrolled'') (navbar sc)"

text \<open>A state transformer never takes the class \<^verbatim>\<open>visible\<close> off an element.\<close>

definition keeps_visible :: "(state \<Rightarrow> state) \<Rightarrow> bool" where
  "keeps_visible f =
     (\<forall>s e. classList_contains s e ''visible'' \<longrightarrow> classList_contains (f s) e ''visible'')"

subsection \<open>A sample page\<close>

text \<open>A navbar (0) holding the toggle button (1) and the link list (2) with two links (3, 4),
  a section (5) that fades in, and a primary button link (6) whose href has no target.\<close>

text \<open>On the sample pages every element is rendered and enabled: what can take the focus
  is a button, a link with an href, and an element with a tabindex.\<close>

definition markup_focusable ::
  "(elem \<Rightarrow> string) \<Rightarrow> (elem \<Rightarrow> string list) \<Rightarrow> (elem \<Rightarrow> string \<Rightarrow> string option) \<Rightarrow> elem \<Rightarrow> bool" where
  "markup_focusable tag cls attrs e =
     (tag e = ''button'' \<or> (tag e = ''a'' \<and> attrs e ''href'' \<noteq> None) \<or>
      attrs e ''tabindex'' \<noteq> None)"

definition demo_tagName :: "elem \<Rightarrow> string" where
  "demo_tagName e =
     (if e = 0 then ''nav'' else if e = 1 then ''button''
      else if e = 2 then ''ul'' else if e = 5 then ''section'' else ''a'')"

definition demo_page :: page where
  "demo_page =
     \<lparr> elements = [0, 1, 2, 3, 4, 5, 6],
       tagName = demo_tagName,
       ancestors = (\<lambda>e. if e = 1 \<or> e = 2 then [0] else if e = 3 \<or> e = 4 then [2, 0] else []),
       otherSelector = (\<lambda>s sel. NotFound),
       focusable = markup_focusable demo_tagName,
       hasIntersectionObserver = True \<rparr>"

definition demo_state :: state where
  "demo_state =
     \<lparr> classList = (\<lambda>e. if e = 3 \<or> e = 4 then [''nav-link''] else if e = 5 then [''fade-in'']
                        else if e = 6 then [''btn-primary''] else []),
       attributes = (\<lambda>e. if e = 0 then [''id'' \<mapsto> ''navbar'']
                         else if e = 1 then [''id'' \<mapsto> ''mobileMenuToggle'', ''aria-expanded'' \<mapsto> ''false'']
                         else if e = 2 then [''id'' \<mapsto> ''navLinks'']
                         else if e = 3 then [''href'' \<mapsto> ''#features'']
                         else if e = 4 then [''href'' \<mapsto> ''#'']
                         else if e = 5 then [''id'' \<mapsto> ''features'']
                         else [''href'' \<mapsto> ''#missing'']),
       style_transform = (\<lambda>e. []),
       body_overflow = [],
       activeElement = None,
       pageYOffset = 0,
       innerHeight = 800,
       rect_top = (\<lambda>e. if e = 5 then 780 else 0),
       rect_bottom = (\<lambda>e. if e = 5 then 1280 else 60),
       lastScroll = 0,
       observers = [],
       calls = [],
       uncaught = [] \<rparr>"

definition demo_script :: script where
  "demo_script = fst (init demo_page demo_state)"

definition demo_start :: state where
  "demo_start = snd (init demo_page demo_state)"

text \<open>The sample page with the menu opened by a click on the toggle, and then with the
  focus on the last and on the first link of the menu.\<close>

definition demo_open :: state where
  "demo_open = fire demo_page demo_script (Click 1) demo_start"



text \<open>The sample page after the observer has reported the section as intersecting, and
  after it has reported it as not intersecting and the timer's viewport check has run
  (the section's top edge is 20 units above the bottom of the viewport).\<close>

definition demo_revealed :: state where
  "demo_revealed = fire demo_page demo_script (Intersection 0 [(5, True)]) demo_start"

definition demo_checked :: state where
  "demo_checked = run demo_page demo_script [Intersection 0 [(5, False)], Timeout] demo_start"

text \<open>The sample page in a browser without IntersectionObserver.\<close>

definition legacy_page :: page where
  "legacy_page = demo_page\<lparr>hasIntersectionObserver := False\<rparr>"

subsection \<open>A page with a plain toggle and numbered sections\<close>

text \<open>A navbar (0) holding a \<^verbatim>\<open>div\<close> that serves as the toggle (1, no tabindex) and the
  link list (2) with three anchors: one without an href (3), one to \<^verbatim>\<open>#top\<close> (4) and one to
  \<^verbatim>\<open>#1abc\<close> (5); a section with the id \<^verbatim>\<open>1abc\<close> (6); and a link (7) to \<^verbatim>\<open>#2nd\<close>, an id
  that no element has.\<close>

definition plain_tagName :: "elem \<Rightarrow> string" where
  "plain_tagName e =
     (if e = 0 then ''nav'' else if e = 1 then ''div''
      else if e = 2 then ''ul'' else if e = 6 then ''section'' else ''a'')"

definition plain_page :: page where
  "plain_page =
     \<lparr> elements = [0, 1, 2, 3, 4, 5, 6, 7],
       tagName = plain_tagName,
       ancestors = (\<lambda>e. if e = 1 \<or> e = 2 then [0]
                        else if e = 3 \<or> e = 4 \<or> e = 5 then [2, 0] else []),
       otherSelector = (\<lambda>s sel. NotFound),
       focusable = markup_focusable plain_tagName,
       hasIntersectionObserver = True \<rparr>"

definition plain_state :: state where
  "plain_state =
     \<lparr> classList = (\<lambda>e. if e = 3 \<or> e = 4 then [''nav-link''] else []),
       attributes = (\<lambda>e. if e = 0 then [''id'' \<mapsto> ''navbar'']
                         else if e = 1 then [''id'' \<mapsto> ''mobileMenuToggle'', ''aria-expanded'' \<mapsto> ''false'']
                         else if e = 2 then [''id'' \<mapsto> ''navLinks'']
                         else if e = 3 then Map.empty
                         else if e = 4 then [''href'' \<mapsto> ''#top'']
                         else if e = 5 then [''href'' \<mapsto> ''#1abc'']
                         else if e = 6 then [''id'' \<mapsto> ''1abc'']
                         else [''href'' \<mapsto> ''#2nd'']),
       style_transform = (\<lambda>e. []),
       body_overflow = [],
       activeElement = None,
       pageYOffset = 0,
       innerHeight = 800,
       rect_top = (\<lambda>e. if e = 6 then 900 else 0),
       rect_bottom = (\<lambda>e. if e = 6 then 1400 else 60),
       lastScroll = 0,
       observers = [],
       calls = [],
       uncaught = [] \<rparr>"

definition plain_script :: script where
  "plain_script = fst (init plain_page plain_state)"

definition plain_start :: state where
  "plain_start = snd (init plain_page plain_state)"

text \<open>The same page with the menu opened by a click on the toggle and the focus on the last
  link of the menu.\<close>

definition plain_on_last :: state where
  "plain_on_last = (fire plain_page plain_script (Click 1) plain_start)\<lparr>activeElement := Some 5\<rparr>"

subsection \<open>A page without the toggle\<close>

text \<open>A page whose only element is the link list, marked up as
  \<^verbatim>\<open><ul id="navLinks" class="nav-links active">\<close>; there is no element with the id
  \<^verbatim>\<open>mobileMenuToggle\<close>.\<close>

definition bare_page :: page where
  "bare_page =
     \<lparr> elements = [0], tagName = (\<lambda>e. ''ul''), ancestors = (\<lambda>e. []),
       otherSelector = (\<lambda>s sel. NotFound), focusable = markup_focusable (\<lambda>e. ''ul''),
       hasIntersectionObserver = True \<rparr>"

definition bare_state :: state where
  "bare_state =
     demo_state\<lparr> classList := (\<lambda>e. [''nav-links'', ''active'']),
                  attributes := (\<lambda>e. [''id'' \<mapsto> ''navLinks'']) \<rparr>"

definition bare_script :: script where
  "bare_script = fst (init bare_page bare_state)"

definition bare_start :: state where
  "bare_start = snd (init bare_page bare_state)"

section \<open>The menu invariant\<close>

lemma closed_view:
  "menu_view t m s' = menu_view t m s \<Longrightarrow> menu_closed t m s' = menu_closed t m s"
  by (simp add: menu_view_def menu_closed_def)

lemma view_classList_add:
  "c \<noteq> ''active'' \<Longrightarrow> menu_view t m (classList_add e c s) = menu_view t m s"
  by (simp add: menu_view_def classList_add_def classList_contains_def getAttribute_def)

lemma view_classList_remove:
  "c \<noteq> ''active'' \<Longrightarrow> menu_view t m (classList_remove e c s) = menu_view t m s"
  by (simp add: menu_view_def classList_remove_def classList_contains_def getAttribute_def)

lemma view_unobserve: "menu_view t m (unobserve i e s) = menu_view t m s"
  by (simp add: menu_view_def unobserve_def classList_contains_def getAttribute_def)

lemma view_navbar_scroll: "menu_view t m (navbar_scroll n s) = menu_view t m s"
  using view_classList_add [of "''scrolled''" t m n s] view_classList_remove [of "''scrolled''" t m n s]
  by (simp add: navbar_scroll_def Let_def menu_view_def classList_contains_def getAttribute_def)

lemma view_observer_callback: "menu_view t m (observer_callback i entries s) = menu_view t m s"
  by (induction i entries s rule: observer_callback.induct)
     (simp_all add: view_unobserve view_classList_add)

lemma view_fold_add:
  "c \<noteq> ''active'' \<Longrightarrow> menu_view t m (fold (\<lambda>el. classList_add el c) xs s) = menu_view t m s"
  by (induction xs arbitrary: s) (simp_all add: view_classList_add)

lemma view_initScrollAnimations: "menu_view t m (initScrollAnimations pg s) = menu_view t m s"
proof (cases "hasIntersectionObserver pg")
  case True
  then show ?thesis
    by (simp add: initScrollAnimations_def menu_view_def classList_contains_def getAttribute_def)
next
  case False
  then show ?thesis by (simp add: initScrollAnimations_def view_fold_add)
qed

lemma view_fold_check:
  "menu_view t m
     (fold (\<lambda>el s'. let isInViewport = (rect_top s' el < innerHeight s' \<and> rect_bottom s' el > 0)
                  in if isInViewport then classList_add el ''visible'' s' else s') xs s)
   = menu_view t m s"
  by (induction xs arbitrary: s) (simp_all add: view_classList_add Let_def)

lemma view_checkInitialView: "menu_view t m (checkInitialView pg s) = menu_view t m s"
  unfolding checkInitialView_def by (rule view_fold_check)

lemma view_anchor_click: "menu_view t m (settle (anchor_click pg a s)) = menu_view t m s"
  by (simp add: anchor_click_def Let_def menu_view_def classList_contains_def getAttribute_def
      preventDefault_def scrollTo_def split: qresult.splits)

lemma view_trap_keydown:
  "menu_view t m (settle (trap_keydown pg fs m' key shift s)) = menu_view t m s"
  by (simp add: trap_keydown_def Let_def focus_value_def menu_view_def classList_contains_def
      getAttribute_def preventDefault_def focus_def is_focusable_def split: jsval.splits)

lemma closed_close_menu: "menu_closed t m (close_menu t m s)"
  by (simp add: close_menu_def Let_def menu_closed_def classList_remove_def setAttribute_def
      classList_contains_def getAttribute_def)

lemma consistent_toggle_click:
  "t \<noteq> m \<Longrightarrow> menu_consistent t m s \<Longrightarrow> menu_consistent t m (toggle_click t m s)"
  by (auto simp add: toggle_click_def Let_def menu_consistent_def menu_open_def menu_closed_def
      classList_toggle_def classList_add_def classList_remove_def setAttribute_def
      classList_contains_def getAttribute_def)

lemma consistent_transfer:
  "menu_view t m s' = menu_view t m s \<Longrightarrow> menu_consistent t m s \<Longrightarrow> menu_consistent t m s'"
  by (simp add: menu_view_def menu_consistent_def menu_open_def menu_closed_def)

lemma consistent_closed: "menu_closed t m s \<Longrightarrow> menu_consistent t m s"
  by (simp add: menu_consistent_def)

lemma consistent_close_menu: "menu_consistent t m (close_menu t m s)"
  by (simp add: consistent_closed closed_close_menu)

lemma consistent_outside_click:
  "menu_consistent t m s \<Longrightarrow> menu_consistent t m (outside_click pg t m target s)"
  by (simp add: outside_click_def Let_def consistent_close_menu)

lemma consistent_element_click:
  assumes "mobileMenuToggle sc = Some t" "navLinks sc = Some m" "t \<noteq> m"
    and "menu_consistent t m s"
  shows "menu_consistent t m (element_click pg sc e s)"
proof -
  define s1 where "s1 = (if e = t then toggle_click t m s else s)"
  define s2 where "s2 = (if e \<in> set (navLinksArray sc) then link_click t m s1 else s1)"
  have c1: "menu_consistent t m s1"
    using assms by (simp add: s1_def consistent_toggle_click)
  have c2: "menu_consistent t m s2"
    using c1 by (simp add: s2_def link_click_def consistent_close_menu)
  have "element_click pg sc e s =
          (if e \<in> set (anchorLinks sc) then settle (anchor_click pg e s2) else s2)"
    using assms(1,2) by (simp add: element_click_def s1_def s2_def Let_def)
  moreover have "menu_consistent t m (settle (anchor_click pg e s2))"
    using view_anchor_click c2 by (rule consistent_transfer)
  ultimately show ?thesis
    using c2 by simp
qed

lemma consistent_fold_click:
  assumes "mobileMenuToggle sc = Some t" "navLinks sc = Some m" "t \<noteq> m"
  shows "menu_consistent t m s \<Longrightarrow> menu_consistent t m (fold (element_click pg sc) es s)"
  by (induction es arbitrary: s) (simp_all add: consistent_element_click [OF assms])

lemma consistent_escape_keydown:
  assumes "mobileMenuToggle sc = Some t" "navLinks sc = Some m"
    and "menu_consistent t m s"
  shows "menu_consistent t m (settle (escape_keydown pg sc key s))"
proof (cases "key = ''Escape'' \<and> classList_contains s m ''active''")
  case True
  then have "menu_closed t m (settle (escape_keydown pg sc key s))"
    using assms(1,2)
    by (simp add: escape_keydown_def Let_def menu_closed_def classList_remove_def
        setAttribute_def classList_contains_def getAttribute_def focus_def is_focusable_def)
  then show ?thesis by (rule consistent_closed)
next
  case False
  then have "settle (escape_keydown pg sc key s) = s"
    using assms(1,2) by (auto simp add: escape_keydown_def)
  then show ?thesis using assms(3) by simp
qed

lemma consistent_fire:
  assumes "mobileMenuToggle sc = Some t" "navLinks sc = Some m" "t \<noteq> m"
    and "menu_consistent t m s"
  shows "menu_consistent t m (fire pg sc ev s)"
proof (cases ev)
  case (Click target)
  have "menu_consistent t m (fold (element_click pg sc) (target # ancestors pg target) s)"
    using assms(4) by (rule consistent_fold_click [OF assms(1-3)])
  then have "menu_consistent t m
      (outside_click pg t m target (fold (element_click pg sc) (target # ancestors pg target) s))"
    by (rule consistent_outside_click)
  then show ?thesis
    using Click assms(1,2) by (simp add: document_click_def del: fold_simps)
next
  case (Keydown target key shiftKey)
  have "menu_consistent t m (settle (trap_keydown pg (focusableElements sc) m key shiftKey s))"
    using view_trap_keydown assms(4) by (rule consistent_transfer)
  then have "menu_consistent t m (navLinks_keydown pg sc target key shiftKey s)"
    using assms(1,2,4) by (simp add: navLinks_keydown_def)
  then have "menu_consistent t m
      (settle (escape_keydown pg sc key (navLinks_keydown pg sc target key shiftKey s)))"
    by (rule consistent_escape_keydown [OF assms(1,2)])
  then show ?thesis using Keydown by simp
next
  case (Scroll y)
  have v: "menu_view t m (s\<lparr>pageYOffset := y\<rparr>) = menu_view t m s"
    by (simp add: menu_view_def classList_contains_def getAttribute_def)
  have "menu_view t m (fire pg sc ev s) = menu_view t m s"
    using Scroll v by (simp add: view_navbar_scroll split: option.splits)
  then show ?thesis using assms(4) by (rule consistent_transfer)
next
  case (Intersection i entries)
  have "menu_view t m (fire pg sc ev s) = menu_view t m s"
    using Intersection by (simp add: view_observer_callback)
  then show ?thesis using assms(4) by (rule consistent_transfer)
next
  case Timeout
  have "menu_view t m (fire pg sc ev s) = menu_view t m s"
    using Timeout by (simp add: view_checkInitialView)
  then show ?thesis using assms(4) by (rule consistent_transfer)
next
  case (MouseEnter e)
  have "menu_view t m (fire pg sc ev s) = menu_view t m s"
    using MouseEnter
    by (simp add: menu_view_def button_mouseenter_def classList_contains_def getAttribute_def)
  then show ?thesis using assms(4) by (rule consistent_transfer)
next
  case (MouseLeave e)
  have "menu_view t m (fire pg sc ev s) = menu_view t m s"
    using MouseLeave
    by (simp add: menu_view_def button_mouseleave_def classList_contains_def getAttribute_def)
  then show ?thesis using assms(4) by (rule consistent_transfer)
next
  case Reinit
  have "menu_view t m (fire pg sc ev s) = menu_view t m s"
    using Reinit by (simp add: view_initScrollAnimations)
  then show ?thesis using assms(4) by (rule consistent_transfer)
qed

lemma consistent_run:
  assumes "mobileMenuToggle sc = Some t" "navLinks sc = Some m" "t \<noteq> m"
  shows "menu_consistent t m s \<Longrightarrow> menu_consistent t m (run pg sc evs s)"
  by (induction evs arbitrary: s) (simp_all add: consistent_fire [OF assms])

lemma getElementById_id:
  "getElementById pg s i = Some e \<Longrightarrow> attributes s e ''id'' = Some i"
  by (auto simp add: getElementById_def find_Some_iff)

lemma load_toggle_neq_navLinks:
  assumes "mobileMenuToggle (load pg s) = Some t" "navLinks (load pg s) = Some m"
  shows "t \<noteq> m"
proof
  assume "t = m"
  moreover have "attributes s t ''id'' = Some ''mobileMenuToggle''"
    using assms(1) by (simp add: load_def Let_def getElementById_id)
  moreover have "attributes s m ''id'' = Some ''navLinks''"
    using assms(2) by (simp add: load_def Let_def getElementById_id)
  ultimately show False by simp
qed

lemma init_script: "fst (init pg s) = load pg s"
  by (simp add: init_def Let_def)

lemma view_init: "menu_view t m (snd (init pg s)) = menu_view t m s"
proof -
  have "menu_view t m (s\<lparr>lastScroll := 0\<rparr>) = menu_view t m s"
    by (simp add: menu_view_def classList_contains_def getAttribute_def)
  then show ?thesis
    by (simp add: init_def Let_def view_initScrollAnimations split: option.splits)
qed

text \<open>Claim C1: started from a closed menu, after every sequence of events (clicks on any
  target, keydowns, scrolls, intersection notifications, the timer, hover, re-initialisation)
  the class on the menu, the class on the toggle, \<^verbatim>\<open>aria-expanded\<close> and the body's overflow
  style all say open or all say closed.\<close>

theorem menu_state_consistent:
  assumes "init pg s0 = (sc, s1)"
    and "mobileMenuToggle sc = Some t" and "navLinks sc = Some m"
    and "menu_closed t m s0"
  shows "menu_consistent t m (run pg sc evs s1)"
proof -
  have sc: "sc = load pg s0" and s1: "s1 = snd (init pg s0)"
    using assms(1) init_script [of pg s0] by simp_all
  have "t \<noteq> m"
    using assms(2,3) load_toggle_neq_navLinks unfolding sc by blast
  moreover have "menu_closed t m s1"
    using assms(4) closed_view [OF view_init, of t m pg s0] unfolding s1 by simp
  then have "menu_consistent t m s1" by (rule consistent_closed)
  ultimately show ?thesis
    by (rule consistent_run [OF assms(2,3)])
qed

lemma demo_script_eval:
  "demo_script =
     \<lparr> mobileMenuToggle = Some 1, navLinks = Some 2, navbar = Some 0,
       navLinksArray = [3, 4], anchorLinks = [3, 4, 6], buttons = [6],
       focusableElements = [3, 4] \<rparr>"
  by (simp add: demo_script_def init_def load_def Let_def getElementById_def demo_page_def
      demo_state_def demo_tagName_def classList_contains_def has_hash_href_def
      is_focusable_selector_def)

lemma demo_start_eval: "demo_start = demo_state\<lparr>observers := [[5]]\<rparr>"
  by (simp add: demo_start_def init_def load_def Let_def getElementById_def
      initScrollAnimations_def animatedElements_def demo_page_def
      demo_state_def classList_contains_def)

theorem menu_state_consistent_witness:
  "init demo_page demo_state = (demo_script, demo_start) \<and>
   mobileMenuToggle demo_script = Some 1 \<and> navLinks demo_script = Some 2 \<and>
   menu_closed 1 2 demo_state \<and>
   menu_consistent 1 2
     (run demo_page demo_script [Click 1, Scroll 120, Keydown 3 ''Escape'' False, Click 1, Click 3]
        demo_start)"
proof -
  have h1: "init demo_page demo_state = (demo_script, demo_start)"
    by (simp add: demo_script_def demo_start_def)
  have h2: "mobileMenuToggle demo_script = Some 1" and h3: "navLinks demo_script = Some 2"
    by (simp_all add: demo_script_eval)
  have h4: "menu_closed 1 2 demo_state"
    by (simp add: menu_closed_def classList_contains_def getAttribute_def demo_state_def)
  show ?thesis
    using h1 h2 h3 h4 menu_state_consistent [OF h1 h2 h3 h4] by blast
qed

lemma demo_toggle_opens:
  "menu_open 1 2 (fire demo_page demo_script (Click 1) demo_start)"
  by (simp add: demo_script_eval demo_start_eval demo_page_def demo_state_def
      element_click_def document_click_def outside_click_def node_contains_def
      toggle_click_def classList_toggle_def classList_add_def classList_remove_def
      setAttribute_def classList_contains_def getAttribute_def menu_open_def Let_def)

section \<open>Escape\<close>

lemma demo_open_eval:
  "demo_open = demo_state
     \<lparr> classList := (classList demo_state)(2 := [''active''], 1 := [''active'']),
       attributes := (attributes demo_state)
          (1 := [''id'' \<mapsto> ''mobileMenuToggle'', ''aria-expanded'' \<mapsto> ''true'']),
       body_overflow := ''hidden'', observers := [[5]] \<rparr>"
  by (simp add: demo_open_def demo_script_eval demo_start_eval demo_page_def demo_state_def
      element_click_def document_click_def outside_click_def node_contains_def
      toggle_click_def classList_toggle_def classList_add_def classList_remove_def
      setAttribute_def classList_contains_def Let_def fun_upd_twist)

lemma plain_script_eval:
  "plain_script =
     \<lparr> mobileMenuToggle = Some 1, navLinks = Some 2, navbar = Some 0,
       navLinksArray = [3, 4], anchorLinks = [4, 5, 7], buttons = [],
       focusableElements = [3, 4, 5] \<rparr>"
  by (simp add: plain_script_def init_def load_def Let_def getElementById_def plain_page_def
      plain_state_def plain_tagName_def classList_contains_def has_hash_href_def
      is_focusable_selector_def)

lemma plain_start_eval: "plain_start = plain_state\<lparr>observers := [[]]\<rparr>"
  by (simp add: plain_start_def init_def load_def Let_def getElementById_def
      initScrollAnimations_def animatedElements_def plain_page_def
      plain_state_def classList_contains_def)

lemma plain_on_last_eval:
  "plain_on_last = plain_state
     \<lparr> classList := (classList plain_state)(2 := [''active''], 1 := [''active'']),
       attributes := (attributes plain_state)
          (1 := [''id'' \<mapsto> ''mobileMenuToggle'', ''aria-expanded'' \<mapsto> ''true'']),
       body_overflow := ''hidden'', activeElement := Some 5, observers := [[]] \<rparr>"
  by (simp add: plain_on_last_def plain_script_eval plain_start_eval plain_page_def
      plain_state_def element_click_def document_click_def outside_click_def node_contains_def
      toggle_click_def classList_toggle_def classList_add_def classList_remove_def
      setAttribute_def classList_contains_def Let_def fun_upd_twist)

lemma trap_keydown_other_key:
  "key \<noteq> ''Tab'' \<Longrightarrow> trap_keydown pg fs m key shiftKey s = Inr s"
  by (simp add: trap_keydown_def Let_def)

lemma navLinks_keydown_other_key:
  "key \<noteq> ''Tab'' \<Longrightarrow> navLinks_keydown pg sc target key shiftKey s = s"
  by (simp add: navLinks_keydown_def trap_keydown_other_key split: option.splits)

lemma calls_focus: "calls (focus pg e s) = calls s @ [Focus e]"
  by (simp add: focus_def)

lemma activeElement_focus:
  "activeElement (focus pg e s) = (if is_focusable pg s e then Some e else activeElement s)"
  by (simp add: focus_def)

text \<open>Claim C3, as the code has it: on a page with the toggle and the menu, Escape on an
  open menu runs the closing mutation (both \<^verbatim>\<open>active\<close> classes removed, \<^verbatim>\<open>aria-expanded\<close>
  set to false, body overflow reset) and then calls \<^verbatim>\<open>focus()\<close> on the toggle: the focus is
  on the toggle afterwards when the toggle is focusable, and stays where it was when it is
  not. Escape on a closed menu leaves the state as it is.\<close>

theorem escape_closes_menu:
  assumes "mobileMenuToggle sc = Some t" and "navLinks sc = Some m"
  shows "(classList_contains s m ''active'' \<longrightarrow>
            (let s' = fire pg sc (Keydown target ''Escape'' shiftKey) s
             in s' = focus pg t (close_menu t m s) \<and>
                \<not> classList_contains s' m ''active'' \<and> \<not> classList_contains s' t ''active'' \<and>
                getAttribute s' t ''aria-expanded'' = Some ''false'' \<and> body_overflow s' = [] \<and>
                calls s' = calls s @ [Focus t] \<and> uncaught s' = uncaught s \<and>
                (is_focusable pg (close_menu t m s) t \<longrightarrow> activeElement s' = Some t) \<and>
                (\<not> is_focusable pg (close_menu t m s) t \<longrightarrow> activeElement s' = activeElement s))) \<and>
         (\<not> classList_contains s m ''active'' \<longrightarrow>
            fire pg sc (Keydown target ''Escape'' shiftKey) s = s)"
proof -
  have nk: "navLinks_keydown pg sc target ''Escape'' shiftKey s = s"
    by (rule navLinks_keydown_other_key) simp
  have opened: "fire pg sc (Keydown target ''Escape'' shiftKey) s = focus pg t (close_menu t m s)"
    if "classList_contains s m ''active''"
    using that assms by (simp add: nk escape_keydown_def close_menu_def Let_def)
  have closing: "\<not> classList_contains c m ''active'' \<and> \<not> classList_contains c t ''active'' \<and>
      getAttribute c t ''aria-expanded'' = Some ''false'' \<and> body_overflow c = [] \<and>
      calls c = calls s \<and> uncaught c = uncaught s \<and> activeElement c = activeElement s"
    if "c = close_menu t m s" for c
    unfolding that
    by (simp add: close_menu_def Let_def classList_remove_def setAttribute_def
        classList_contains_def getAttribute_def)
  have focused: "classList_contains (focus pg t c) x a = classList_contains c x a \<and>
      getAttribute (focus pg t c) x k = getAttribute c x k \<and>
      body_overflow (focus pg t c) = body_overflow c \<and> uncaught (focus pg t c) = uncaught c"
    for c x a k
    by (simp add: focus_def classList_contains_def getAttribute_def)
  have facts: "\<not> classList_contains s' m ''active'' \<and> \<not> classList_contains s' t ''active'' \<and>
      getAttribute s' t ''aria-expanded'' = Some ''false'' \<and> body_overflow s' = [] \<and>
      calls s' = calls s @ [Focus t] \<and> uncaught s' = uncaught s \<and>
      (is_focusable pg (close_menu t m s) t \<longrightarrow> activeElement s' = Some t) \<and>
      (\<not> is_focusable pg (close_menu t m s) t \<longrightarrow> activeElement s' = activeElement s)"
    if "s' = focus pg t (close_menu t m s)" for s'
    unfolding that using closing [OF refl]
    by (simp add: focused calls_focus activeElement_focus)
  have closed: "fire pg sc (Keydown target ''Escape'' shiftKey) s = s"
    if "\<not> classList_contains s m ''active''"
    using that assms by (simp add: nk escape_keydown_def)
  show ?thesis
    unfolding Let_def using opened facts closed by blast
qed

theorem escape_closes_menu_witness:
  "mobileMenuToggle demo_script = Some 1 \<and> navLinks demo_script = Some 2 \<and>
   classList_contains demo_open 2 ''active'' \<and>
   is_focusable demo_page (close_menu 1 2 demo_open) 1 \<and>
   \<not> classList_contains (fire demo_page demo_script (Keydown 3 ''Escape'' False) demo_open) 2 ''active'' \<and>
   calls (fire demo_page demo_script (Keydown 3 ''Escape'' False) demo_open) =
     calls demo_open @ [Focus 1] \<and>
   activeElement (fire demo_page demo_script (Keydown 3 ''Escape'' False) demo_open) = Some 1 \<and>
   \<not> classList_contains demo_start 2 ''active'' \<and>
   fire demo_page demo_script (Keydown 3 ''Escape'' False) demo_start = demo_start"
proof -
  have h1: "mobileMenuToggle demo_script = Some 1" and h2: "navLinks demo_script = Some 2"
    by (simp_all add: demo_script_eval)
  have h3: "classList_contains demo_open 2 ''active''"
    by (simp add: demo_open_eval classList_contains_def)
  have h4: "\<not> classList_contains demo_start 2 ''active''"
    by (simp add: demo_start_eval demo_state_def classList_contains_def)
  have h5: "is_focusable demo_page (close_menu 1 2 demo_open) 1"
    by (simp add: is_focusable_def demo_page_def markup_focusable_def demo_tagName_def)
  show ?thesis
    using h1 h2 h3 h4 h5
      escape_closes_menu [OF h1 h2, of demo_open demo_page 3 False]
      escape_closes_menu [OF h1 h2, of demo_start demo_page 3 False]
    unfolding Let_def by blast
qed

text \<open>Claim C3 as stated says that Escape on an open menu moves the focus to the toggle.
  On the page whose toggle is a \<^verbatim>\<open>div\<close> without tabindex the menu is open, the focus is on
  the last link, and after Escape the focus is still there.\<close>

theorem escape_focus_counterexample:
  "\<not> (classList_contains plain_on_last 2 ''active'' \<longrightarrow>
        activeElement (fire plain_page plain_script (Keydown 5 ''Escape'' False) plain_on_last) =
          Some 1)"
  by (simp add: plain_on_last_eval plain_script_eval plain_state_def plain_page_def
      plain_tagName_def markup_focusable_def navLinks_keydown_def trap_keydown_def
      escape_keydown_def focus_def is_focusable_def classList_contains_def classList_remove_def
      setAttribute_def node_contains_def Let_def)

section \<open>The focus trap\<close>









section \<open>Smooth scroll\<close>

lemma smooth_scroll_found:
  assumes "getAttribute s anchor ''href'' = Some h" and "h \<noteq> ''#''" and "h \<noteq> []"
    and "querySelector pg s h = Found target"
  shows "anchor_click pg anchor s =
           Inr (s\<lparr>calls := calls s @
                  [PreventDefault,
                   ScrollToSmooth (binary64 (binary64 (rect_top s target + pageYOffset s) - 80))]\<rparr>)"
  using assms
  by (simp add: anchor_click_def Let_def selector_of_def preventDefault_def scrollTo_def
      headerOffset_def)

lemma querySelector_identifier:
  "is_identifier i \<Longrightarrow>
   querySelector pg s (CHR ''#'' # i) =
     (case getElementById pg s i of None \<Rightarrow> NotFound | Some e \<Rightarrow> Found e)"
  by (simp add: querySelector_def)

lemma querySelector_digit_led: "digit_led i \<Longrightarrow> querySelector pg s (CHR ''#'' # i) = Invalid"
  by (auto simp add: querySelector_def is_identifier_def digit_led_def ident_start_def
      split: list.splits)

lemma smooth_scroll_by_id:
  assumes "getAttribute s anchor ''href'' = Some (CHR ''#'' # i)" and "is_identifier i"
    and "getElementById pg s i = Some target"
  shows "anchor_click pg anchor s =
           Inr (s\<lparr>calls := calls s @
                  [PreventDefault,
                   ScrollToSmooth (binary64 (binary64 (rect_top s target + pageYOffset s) - 80))]\<rparr>)"
proof -
  have "i \<noteq> []" using assms(2) by (auto simp add: is_identifier_def)
  then have "CHR ''#'' # i \<noteq> ''#''" and "CHR ''#'' # i \<noteq> []" by simp_all
  moreover have "querySelector pg s (CHR ''#'' # i) = Found target"
    using assms(2,3) by (simp add: querySelector_identifier)
  ultimately show ?thesis using assms(1) by (rule smooth_scroll_found [rotated])
qed

lemma smooth_scroll_skip:
  "getAttribute s anchor ''href'' = Some ''#'' \<or> getAttribute s anchor ''href'' = Some [] \<Longrightarrow>
   anchor_click pg anchor s = Inr s"
  by (auto simp add: anchor_click_def Let_def)

lemma smooth_scroll_null:
  "querySelector pg s (selector_of (getAttribute s anchor ''href'')) = NotFound \<Longrightarrow>
   anchor_click pg anchor s = Inr s"
  by (simp add: anchor_click_def Let_def)

lemma smooth_scroll_invalid:
  "getAttribute s anchor ''href'' = Some (CHR ''#'' # i) \<Longrightarrow> digit_led i \<Longrightarrow>
   anchor_click pg anchor s = Inl (SyntaxError, s)"
  by (auto simp add: anchor_click_def Let_def selector_of_def querySelector_digit_led
      digit_led_def split: list.splits)

text \<open>The scroll target is computed in doubles: for an element at 80.3 (the nearest double)
  and no scroll offset, the top requested is not the double nearest to 0.3.\<close>

lemma scroll_target_rounding:
  "binary64 (binary64 (binary64 (803 / 10) + 0) - 80) = 21110623253299 / 70368744177664 \<and>
   binary64 (3 / 10) = 5404319552844595 / 18014398509481984"
  by (simp add: binary64_def binade_def ilog2.simps pow2_def round_half_even_def Let_def)

text \<open>Claim C5 at a link whose href names an element that exists: the link 5 has the href
  \<^verbatim>\<open>#1abc\<close> and the section 6 has the id \<^verbatim>\<open>1abc\<close>. \<^verbatim>\<open>document.querySelector('#1abc')\<close>
  throws a SyntaxError: the listener ends there, with no \<^verbatim>\<open>preventDefault\<close> and no scroll
  request, and the exception is uncaught.\<close>

theorem smooth_scroll_digit_id_throws:
  "getAttribute plain_start 5 ''href'' = Some ''#1abc'' \<and>
   getElementById plain_page plain_start ''1abc'' = Some 6 \<and>
   anchor_click plain_page 5 plain_start = Inl (SyntaxError, plain_start) \<and>
   calls (fire plain_page plain_script (Click 5) plain_start) = [] \<and>
   uncaught (fire plain_page plain_script (Click 5) plain_start) = [SyntaxError]"
proof -
  have h: "getAttribute plain_start 5 ''href'' = Some ''#1abc''"
    by (simp add: getAttribute_def plain_start_eval plain_state_def)
  have g: "getElementById plain_page plain_start ''1abc'' = Some 6"
    by (simp add: getElementById_def plain_start_eval plain_state_def plain_page_def)
  have a: "anchor_click plain_page 5 plain_start = Inl (SyntaxError, plain_start)"
    using h by (rule smooth_scroll_invalid) (simp add: digit_led_def)
  have p: "5 # ancestors plain_page 5 = [5, 2, 0]"
    by (simp add: plain_page_def)
  have e5: "element_click plain_page plain_script 5 plain_start =
      plain_start\<lparr>uncaught := uncaught plain_start @ [SyntaxError]\<rparr>"
    by (simp add: element_click_def plain_script_eval Let_def a)
  have other: "element_click plain_page plain_script e s = s" if "e = 2 \<or> e = 0" for e s
    using that by (auto simp add: element_click_def plain_script_eval Let_def)
  have inside: "document_click plain_page plain_script 5 s = s" for s
    by (simp add: document_click_def plain_script_eval outside_click_def node_contains_def
        plain_page_def Let_def)
  have "fire plain_page plain_script (Click 5) plain_start =
      plain_start\<lparr>uncaught := uncaught plain_start @ [SyntaxError]\<rparr>"
    unfolding fire.simps p by (simp add: e5 other inside)
  moreover have "calls plain_start = []" and "uncaught plain_start = []"
    by (simp_all add: plain_start_eval plain_state_def)
  ultimately show ?thesis
    using h g a by simp
qed

text \<open>Claim C6 at a link whose href names no element: the link 7 has the href \<^verbatim>\<open>#2nd\<close> and
  no element has the id \<^verbatim>\<open>2nd\<close>. \<^verbatim>\<open>document.querySelector('#2nd')\<close> throws a SyntaxError,
  which leaves the listener uncaught instead of the silent fall-through.\<close>

theorem smooth_scroll_missing_target_throws:
  "getAttribute plain_start 7 ''href'' = Some ''#2nd'' \<and>
   getElementById plain_page plain_start ''2nd'' = None \<and>
   anchor_click plain_page 7 plain_start = Inl (SyntaxError, plain_start) \<and>
   uncaught plain_start = [] \<and>
   uncaught (fire plain_page plain_script (Click 7) plain_start) = [SyntaxError]"
proof -
  have h: "getAttribute plain_start 7 ''href'' = Some ''#2nd''"
    by (simp add: getAttribute_def plain_start_eval plain_state_def)
  have g: "getElementById plain_page plain_start ''2nd'' = None"
    by (simp add: getElementById_def plain_start_eval plain_state_def plain_page_def)
  have a: "anchor_click plain_page 7 plain_start = Inl (SyntaxError, plain_start)"
    using h by (rule smooth_scroll_invalid) (simp add: digit_led_def)
  have p: "7 # ancestors plain_page 7 = [7]"
    by (simp add: plain_page_def)
  have e7: "element_click plain_page plain_script 7 plain_start =
      plain_start\<lparr>uncaught := uncaught plain_start @ [SyntaxError]\<rparr>"
    by (simp add: element_click_def plain_script_eval Let_def a)
  have closed: "\<not> classList_contains (plain_start\<lparr>uncaught := u\<rparr>) 2 ''active''" for u
    by (simp add: classList_contains_def plain_start_eval plain_state_def)
  have outside: "document_click plain_page plain_script 7 (plain_start\<lparr>uncaught := u\<rparr>) =
      plain_start\<lparr>uncaught := u\<rparr>" for u
    using closed [of u]
    by (simp add: document_click_def plain_script_eval outside_click_def Let_def)
  have "fire plain_page plain_script (Click 7) plain_start =
      plain_start\<lparr>uncaught := uncaught plain_start @ [SyntaxError]\<rparr>"
    unfolding fire.simps p by (simp add: e7 outside)
  moreover have "uncaught plain_start = []"
    by (simp add: plain_start_eval plain_state_def)
  ultimately show ?thesis
    using h g a by simp
qed

section \<open>Navbar\<close>

lemma contains_classList_add:
  "classList_contains (classList_add e c s) e' c' =
     (classList_contains s e' c' \<or> (e' = e \<and> c' = c))"
  by (auto simp add: classList_add_def classList_contains_def)

lemma contains_classList_remove:
  "classList_contains (classList_remove e c s) e' c' =
     (classList_contains s e' c' \<and> \<not> (e' = e \<and> c' = c))"
  by (auto simp add: classList_remove_def classList_contains_def)

lemma contains_navbar_scroll:
  "classList_contains (navbar_scroll n s) n ''scrolled'' = (50 < pageYOffset s)"
  by (simp add: navbar_scroll_def Let_def scrollThreshold_def classList_contains_def
      classList_add_def classList_remove_def)

lemma navbar_scroll_idem: "navbar_scroll n (navbar_scroll n s) = navbar_scroll n s"
  by (simp add: navbar_scroll_def Let_def classList_add_def classList_remove_def)

text \<open>Claim C7: after a scroll event the navbar carries \<^verbatim>\<open>scrolled\<close> exactly when the
  offset is greater than 50, and delivering the same scroll event again changes nothing.\<close>

theorem navbar_scrolled_iff:
  assumes "navbar sc = Some n"
  shows "(classList_contains (fire pg sc (Scroll y) s) n ''scrolled'' \<longleftrightarrow> 50 < y) \<and>
         fire pg sc (Scroll y) (fire pg sc (Scroll y) s) = fire pg sc (Scroll y) s"
proof -
  have f: "fire pg sc (Scroll y) s' = navbar_scroll n (s'\<lparr>pageYOffset := y\<rparr>)" for s'
    using assms by simp
  have p: "(navbar_scroll n s')\<lparr>pageYOffset := pageYOffset s'\<rparr> = navbar_scroll n s'" for s'
    by (simp add: navbar_scroll_def Let_def classList_add_def classList_remove_def)
  have a: "classList_contains (fire pg sc (Scroll y) s) n ''scrolled'' \<longleftrightarrow> 50 < y"
    unfolding f by (simp add: contains_navbar_scroll)
  have "navbar_scroll n ((navbar_scroll n (s\<lparr>pageYOffset := y\<rparr>))\<lparr>pageYOffset := y\<rparr>) =
        navbar_scroll n (s\<lparr>pageYOffset := y\<rparr>)"
    using p [of "s\<lparr>pageYOffset := y\<rparr>"] by (simp add: navbar_scroll_idem)
  then have b: "fire pg sc (Scroll y) (fire pg sc (Scroll y) s) = fire pg sc (Scroll y) s"
    unfolding f .
  show ?thesis using a b by blast
qed

theorem navbar_scrolled_iff_witness:
  "navbar demo_script = Some 0 \<and>
   \<not> classList_contains (fire demo_page demo_script (Scroll 50) demo_start) 0 ''scrolled'' \<and>
   classList_contains (fire demo_page demo_script (Scroll 51) demo_start) 0 ''scrolled'' \<and>
   \<not> classList_contains
       (fire demo_page demo_script (Scroll 50) (fire demo_page demo_script (Scroll 51) demo_start))
       0 ''scrolled''"
proof -
  have h: "navbar demo_script = Some 0"
    by (simp add: demo_script_eval)
  show ?thesis
    using h navbar_scrolled_iff [OF h, of demo_page 50 demo_start]
      navbar_scrolled_iff [OF h, of demo_page 51 demo_start]
      navbar_scrolled_iff [OF h, of demo_page 50 "fire demo_page demo_script (Scroll 51) demo_start"]
    by simp
qed

text \<open>Claim C10: the \<^verbatim>\<open>scrolled\<close> state of the navbar after a scroll event to offset
  \<open>y\<close> is the same from any two earlier states, and the stored \<^verbatim>\<open>lastScroll\<close> has no
  influence on any class list the event leaves behind.\<close>

theorem navbar_scroll_history_independent:
  "scrolled_view sc (fire pg sc (Scroll y) s1) = scrolled_view sc (fire pg sc (Scroll y) s2) \<and>
   classList (fire pg sc (Scroll y) (s1\<lparr>lastScroll := v\<rparr>)) = classList (fire pg sc (Scroll y) s1)"
proof (cases "navbar sc")
  case None
  then show ?thesis by (simp add: scrolled_view_def)
next
  case (Some n)
  have "classList (navbar_scroll n (s1\<lparr>lastScroll := v, pageYOffset := y\<rparr>)) =
        classList (navbar_scroll n (s1\<lparr>pageYOffset := y\<rparr>))"
    by (simp add: navbar_scroll_def Let_def classList_add_def classList_remove_def)
  then show ?thesis
    using Some by (simp add: scrolled_view_def contains_navbar_scroll)
qed

theorem navbar_scroll_history_independent_witness:
  "scrolled_view demo_script (fire demo_page demo_script (Scroll 20) demo_start) =
     scrolled_view demo_script
       (fire demo_page demo_script (Scroll 20) (fire demo_page demo_script (Scroll 900) demo_start))"
  using navbar_scroll_history_independent
    [of demo_script demo_page 20 demo_start "fire demo_page demo_script (Scroll 900) demo_start" 0]
  by blast

section \<open>Reveal on scroll\<close>

lemma observers_classList_add: "observers (classList_add e c s) = observers s"
  by (simp add: classList_add_def)

lemma contains_fold_add:
  "classList_contains (fold (\<lambda>el. classList_add el c) xs s) e c =
     (e \<in> set xs \<or> classList_contains s e c)"
  by (induction xs arbitrary: s) (auto simp add: contains_classList_add)

lemma observers_fold_add: "observers (fold (\<lambda>el. classList_add el c) xs s) = observers s"
  by (induction xs arbitrary: s) (simp_all add: observers_classList_add)

text \<open>Claim C9: without IntersectionObserver, \<^verbatim>\<open>initScrollAnimations\<close> leaves every element
  of class \<^verbatim>\<open>fade-in\<close> or \<^verbatim>\<open>fade-in-up\<close> with the class \<^verbatim>\<open>visible\<close> and creates no
  observer.\<close>

theorem fallback_reveals_all:
  assumes "\<not> hasIntersectionObserver pg"
  shows "(\<forall>e \<in> set (elements pg).
            classList_contains s e ''fade-in'' \<or> classList_contains s e ''fade-in-up'' \<longrightarrow>
            classList_contains (initScrollAnimations pg s) e ''visible'') \<and>
         observers (initScrollAnimations pg s) = observers s"
  using assms
  by (simp add: initScrollAnimations_def contains_fold_add observers_fold_add
      animatedElements_def)

theorem fallback_reveals_all_witness:
  "\<not> hasIntersectionObserver legacy_page \<and> 5 \<in> set (elements legacy_page) \<and>
   classList_contains demo_state 5 ''fade-in'' \<and>
   classList_contains (initScrollAnimations legacy_page demo_state) 5 ''visible'' \<and>
   observers (initScrollAnimations legacy_page demo_state) = []"
proof -
  have h: "\<not> hasIntersectionObserver legacy_page"
    by (simp add: legacy_page_def)
  have e: "5 \<in> set (elements legacy_page)"
    by (simp add: legacy_page_def demo_page_def)
  have c: "classList_contains demo_state 5 ''fade-in''"
    by (simp add: classList_contains_def demo_state_def)
  have o: "observers demo_state = []"
    by (simp add: demo_state_def)
  show ?thesis
    using h e c o fallback_reveals_all [OF h, of demo_state] by auto
qed

subsection \<open>The class \<^verbatim>\<open>visible\<close> is never removed\<close>

lemma keeps_visibleI:
  "(\<And>s e. classList_contains s e ''visible'' \<Longrightarrow> classList_contains (f s) e ''visible'')
   \<Longrightarrow> keeps_visible f"
  by (simp add: keeps_visible_def)

lemma keeps_visibleD:
  "keeps_visible f \<Longrightarrow> classList_contains s e ''visible'' \<Longrightarrow> classList_contains (f s) e ''visible''"
  by (simp add: keeps_visible_def)

lemma keeps_same_classList:
  "(\<And>s. classList (f s) = classList s) \<Longrightarrow> keeps_visible f"
  by (simp add: keeps_visible_def classList_contains_def)

lemma keeps_comp: "keeps_visible f \<Longrightarrow> keeps_visible g \<Longrightarrow> keeps_visible (\<lambda>s. g (f s))"
  by (simp add: keeps_visible_def)

lemma keeps_add: "keeps_visible (classList_add e c)"
  by (simp add: keeps_visible_def contains_classList_add)

lemma keeps_remove: "c \<noteq> ''visible'' \<Longrightarrow> keeps_visible (classList_remove e c)"
  by (auto simp add: keeps_visible_def contains_classList_remove)

lemma keeps_toggle: "c \<noteq> ''visible'' \<Longrightarrow> keeps_visible (classList_toggle e c)"
  by (auto simp add: keeps_visible_def classList_toggle_def contains_classList_remove
      contains_classList_add)

lemma keeps_fold:
  "(\<And>x. keeps_visible (f x)) \<Longrightarrow> keeps_visible (fold f xs)"
proof (induction xs)
  case Nil
  then show ?case by (simp add: keeps_visible_def)
next
  case (Cons x xs)
  have "keeps_visible (f x)" and "keeps_visible (fold f xs)"
    using Cons by simp_all
  then have "keeps_visible (\<lambda>s. fold f xs (f x s))"
    by (rule keeps_comp)
  then show ?case by (simp add: keeps_visible_def)
qed

lemma keeps_toggle_click: "keeps_visible (toggle_click t m)"
proof (rule keeps_visibleI)
  fix s e
  assume v: "classList_contains s e ''visible''"
  have 1: "classList_contains (classList_toggle m ''active'' s) e ''visible''"
    using keeps_toggle [of "''active''" m] v by (simp add: keeps_visible_def)
  have 2: "classList_contains (classList_toggle t ''active'' (classList_toggle m ''active'' s))
             e ''visible''"
    using keeps_toggle [of "''active''" t] 1 by (simp add: keeps_visible_def)
  then show "classList_contains (toggle_click t m s) e ''visible''"
    by (simp add: toggle_click_def Let_def setAttribute_def classList_contains_def)
qed

lemma keeps_close_menu: "keeps_visible (close_menu t m)"
proof (rule keeps_visibleI)
  fix s e
  assume v: "classList_contains s e ''visible''"
  have 1: "classList_contains (classList_remove m ''active'' s) e ''visible''"
    using keeps_remove [of "''active''" m] v by (simp add: keeps_visible_def)
  have 2: "classList_contains (classList_remove t ''active'' (classList_remove m ''active'' s))
             e ''visible''"
    using keeps_remove [of "''active''" t] 1 by (simp add: keeps_visible_def)
  then show "classList_contains (close_menu t m s) e ''visible''"
    by (simp add: close_menu_def Let_def setAttribute_def classList_contains_def)
qed

lemma keeps_outside_click: "keeps_visible (outside_click pg t m target)"
  using keeps_close_menu [of t m]
  by (simp add: keeps_visible_def outside_click_def Let_def)

lemma keeps_anchor_click: "keeps_visible (\<lambda>s. settle (anchor_click pg a s))"
  by (rule keeps_same_classList)
     (simp add: anchor_click_def Let_def preventDefault_def scrollTo_def split: qresult.splits)

lemma keeps_element_click: "keeps_visible (element_click pg sc e)"
proof (rule keeps_visibleI)
  fix s x
  assume v: "classList_contains s x ''visible''"
  define s2 where "s2 = (case (mobileMenuToggle sc, navLinks sc) of
                  (Some t, Some m) \<Rightarrow>
                    (let s1 = (if e = t then toggle_click t m s else s)
                     in if e \<in> set (navLinksArray sc) then link_click t m s1 else s1)
                | _ \<Rightarrow> s)"
  have "classList_contains s2 x ''visible''"
    using v keeps_visibleD [OF keeps_toggle_click] keeps_visibleD [OF keeps_close_menu]
    by (simp add: s2_def Let_def link_click_def split: option.splits)
  then have "classList_contains (if e \<in> set (anchorLinks sc) then settle (anchor_click pg e s2) else s2)
      x ''visible''"
    using keeps_visibleD [OF keeps_anchor_click] by simp
  moreover have "element_click pg sc e s =
      (if e \<in> set (anchorLinks sc) then settle (anchor_click pg e s2) else s2)"
    by (simp only: element_click_def s2_def Let_def)
  ultimately show "classList_contains (element_click pg sc e s) x ''visible''"
    by simp
qed

lemma keeps_document_click: "keeps_visible (document_click pg sc target)"
  using keeps_outside_click
  by (simp add: keeps_visible_def document_click_def split: option.splits)

lemma keeps_trap_keydown: "keeps_visible (\<lambda>s. settle (trap_keydown pg fs m key shiftKey s))"
  by (rule keeps_same_classList)
     (simp add: trap_keydown_def Let_def focus_value_def preventDefault_def focus_def is_focusable_def
      split: jsval.splits)

lemma keeps_navLinks_keydown: "keeps_visible (navLinks_keydown pg sc target key shiftKey)"
  using keeps_trap_keydown
  by (simp add: keeps_visible_def navLinks_keydown_def split: option.splits)

lemma keeps_escape_keydown: "keeps_visible (\<lambda>s. settle (escape_keydown pg sc key s))"
proof (rule keeps_visibleI)
  fix s e
  assume v: "classList_contains s e ''visible''"
  have r: "classList_contains (classList_remove x ''active'' s') e ''visible''"
    if "classList_contains s' e ''visible''" for x s'
    using keeps_remove [of "''active''" x] that by (simp add: keeps_visible_def)
  show "classList_contains (settle (escape_keydown pg sc key s)) e ''visible''"
    using v r [OF v] r [OF r [OF v]]
    by (simp add: escape_keydown_def Let_def setAttribute_def focus_def is_focusable_def classList_contains_def
        split: option.splits)
qed

lemma keeps_navbar_scroll: "keeps_visible (navbar_scroll n)"
  using keeps_add [of n "''scrolled''"] keeps_remove [of "''scrolled''" n]
  by (simp add: keeps_visible_def navbar_scroll_def Let_def classList_contains_def)

lemma keeps_unobserve: "keeps_visible (unobserve i e)"
  by (rule keeps_same_classList) (simp add: unobserve_def)

lemma keeps_observer_callback: "keeps_visible (observer_callback i entries)"
proof (rule keeps_visibleI)
  fix s e
  show "classList_contains s e ''visible'' \<Longrightarrow>
        classList_contains (observer_callback i entries s) e ''visible''"
  proof (induction i entries s rule: observer_callback.induct)
    case (1 i s)
    then show ?case by simp
  next
    case (2 i target isIntersecting entries s)
    have "classList_contains (unobserve i target (classList_add target ''visible'' s)) e ''visible''"
      using "2.prems" keeps_visibleD [OF keeps_unobserve] keeps_visibleD [OF keeps_add] by blast
    then show ?case using 2 by simp
  qed
qed

lemma keeps_initScrollAnimations: "keeps_visible (initScrollAnimations pg)"
proof (rule keeps_visibleI)
  fix s e
  assume v: "classList_contains s e ''visible''"
  have "classList_contains (fold (\<lambda>el. classList_add el ''visible'') xs s) e ''visible''" for xs
    using v by (simp add: contains_fold_add)
  then show "classList_contains (initScrollAnimations pg s) e ''visible''"
    using v by (simp add: initScrollAnimations_def classList_contains_def)
qed

lemma keeps_checkInitialView: "keeps_visible (checkInitialView pg)"
proof (rule keeps_visibleI)
  fix s e
  assume v: "classList_contains s e ''visible''"
  have "keeps_visible (fold (\<lambda>el s'. let isInViewport = (rect_top s' el < innerHeight s' \<and> rect_bottom s' el > 0)
                  in if isInViewport then classList_add el ''visible'' s' else s') xs)" for xs
    by (rule keeps_fold) (simp add: keeps_visible_def contains_classList_add Let_def)
  then show "classList_contains (checkInitialView pg s) e ''visible''"
    using v unfolding checkInitialView_def by (rule keeps_visibleD)
qed

lemma keeps_fire: "keeps_visible (fire pg sc ev)"
proof (cases ev)
  case (Click target)
  have "keeps_visible (fold (element_click pg sc) (target # ancestors pg target))"
    by (rule keeps_fold) (rule keeps_element_click)
  then have "keeps_visible (\<lambda>s. document_click pg sc target
          (fold (element_click pg sc) (target # ancestors pg target) s))"
    using keeps_document_click by (rule keeps_comp)
  then show ?thesis using Click by (simp add: keeps_visible_def del: fold_simps)
next
  case (Keydown target key shiftKey)
  have "keeps_visible (\<lambda>s. settle (escape_keydown pg sc key (navLinks_keydown pg sc target key shiftKey s)))"
    using keeps_navLinks_keydown keeps_escape_keydown by (rule keeps_comp)
  then show ?thesis using Keydown by (simp add: keeps_visible_def)
next
  case (Scroll y)
  have "keeps_visible (\<lambda>s. s\<lparr>pageYOffset := y\<rparr>)"
    by (rule keeps_same_classList) simp
  then show ?thesis
    using Scroll keeps_navbar_scroll by (simp add: keeps_visible_def split: option.splits)
next
  case (Intersection i entries)
  then show ?thesis using keeps_observer_callback by (simp add: keeps_visible_def)
next
  case Timeout
  then show ?thesis using keeps_checkInitialView by (simp add: keeps_visible_def)
next
  case (MouseEnter e)
  then show ?thesis
    by (simp add: keeps_visible_def button_mouseenter_def classList_contains_def)
next
  case (MouseLeave e)
  then show ?thesis
    by (simp add: keeps_visible_def button_mouseleave_def classList_contains_def)
next
  case Reinit
  then show ?thesis using keeps_initScrollAnimations by (simp add: keeps_visible_def)
qed

lemma keeps_run: "keeps_visible (run pg sc evs)"
proof (induction evs)
  case Nil
  then show ?case by (simp add: keeps_visible_def)
next
  case (Cons ev evs)
  have "keeps_visible (\<lambda>s. run pg sc evs (fire pg sc ev s))"
    using keeps_fire Cons by (rule keeps_comp)
  then show ?case by (simp add: keeps_visible_def)
qed

lemma length_observers_unobserve: "length (observers (unobserve i e s)) = length (observers s)"
  by (simp add: unobserve_def)

lemma unobserved_unobserve:
  "e \<notin> set (observers s ! i) \<Longrightarrow> e \<notin> set (observers (unobserve i x s) ! i)"
  by (simp add: unobserve_def)

lemma unobserved_callback:
  "e \<notin> set (observers s ! i) \<Longrightarrow> e \<notin> set (observers (observer_callback i entries s) ! i)"
proof (induction i entries s rule: observer_callback.induct)
  case (1 i s)
  then show ?case by simp
next
  case (2 i target isIntersecting entries s)
  have "e \<notin> set (observers (unobserve i target (classList_add target ''visible'' s)) ! i)"
    using "2.prems" by (simp add: unobserved_unobserve observers_classList_add)
  then show ?case using 2 by simp
qed

lemma reveal_step:
  assumes "i < length (observers s)"
  shows "classList_contains (unobserve i e (classList_add e ''visible'' s)) e ''visible'' \<and>
         e \<notin> set (observers (unobserve i e (classList_add e ''visible'' s)) ! i)"
proof -
  have "classList_contains (classList_add e ''visible'' s) e ''visible''"
    by (simp add: contains_classList_add)
  then have "classList_contains (unobserve i e (classList_add e ''visible'' s)) e ''visible''"
    by (simp add: unobserve_def classList_contains_def)
  moreover have "e \<notin> set (observers (unobserve i e (classList_add e ''visible'' s)) ! i)"
    using assms by (simp add: unobserve_def observers_classList_add)
  ultimately show ?thesis by blast
qed

lemma callback_reveals:
  "i < length (observers s) \<Longrightarrow> (e, True) \<in> set entries \<Longrightarrow>
   classList_contains (observer_callback i entries s) e ''visible'' \<and>
   e \<notin> set (observers (observer_callback i entries s) ! i)"
proof (induction i entries s rule: observer_callback.induct)
  case (1 i s)
  then show ?case by simp
next
  case (2 i target isIntersecting entries s)
  define s' where
    "s' = (if isIntersecting then unobserve i target (classList_add target ''visible'' s) else s)"
  have len: "i < length (observers s')"
    using "2.prems"(1) by (simp add: s'_def length_observers_unobserve observers_classList_add)
  show ?case
  proof (cases "(e, True) = (target, isIntersecting)")
    case True
    then have "classList_contains s' e ''visible'' \<and> e \<notin> set (observers s' ! i)"
      using reveal_step [OF "2.prems"(1), of e] by (simp add: s'_def)
    then have "classList_contains (observer_callback i entries s') e ''visible'' \<and>
        e \<notin> set (observers (observer_callback i entries s') ! i)"
      using keeps_visibleD [OF keeps_observer_callback] unobserved_callback by blast
    then show ?thesis by (simp add: s'_def)
  next
    case False
    then have "(e, True) \<in> set entries" using "2.prems"(2) by auto
    then have "classList_contains (observer_callback i entries s') e ''visible'' \<and>
        e \<notin> set (observers (observer_callback i entries s') ! i)"
      using "2.IH" len unfolding s'_def by blast
    then show ?thesis by (simp add: s'_def)
  qed
qed

text \<open>Claim C8, as the code has it: the class \<^verbatim>\<open>visible\<close>, once on an element, is on it
  after every later sequence of events; and an element that an observer's callback receives
  as intersecting is visible and no longer observed by that observer when the callback
  returns.\<close>

theorem visible_never_reverts:
  "(classList_contains s e ''visible'' \<longrightarrow>
      classList_contains (run pg sc evs s) e ''visible'') \<and>
   (i < length (observers s) \<and> (e, True) \<in> set entries \<longrightarrow>
      classList_contains (fire pg sc (Intersection i entries) s) e ''visible'' \<and>
      e \<notin> set (observers (fire pg sc (Intersection i entries) s) ! i))"
  using keeps_visibleD [OF keeps_run, of s e pg sc evs] callback_reveals [of i s e entries]
  by simp

lemma demo_revealed_eval:
  "demo_revealed = demo_state
     \<lparr> classList := (classList demo_state)(5 := [''fade-in'', ''visible'']), observers := [[]] \<rparr>"
  by (simp add: demo_revealed_def demo_start_eval demo_state_def classList_add_def unobserve_def)

theorem visible_never_reverts_witness:
  "classList_contains demo_revealed 5 ''visible'' \<and>
   classList_contains
     (run demo_page demo_script [Scroll 300, Intersection 0 [(5, False)], Timeout, Scroll 0]
        demo_revealed) 5 ''visible'' \<and>
   0 < length (observers demo_start) \<and> (5::nat, True) \<in> set [(5, True)] \<and>
   classList_contains (fire demo_page demo_script (Intersection 0 [(5, True)]) demo_start) 5 ''visible'' \<and>
   5 \<notin> set (observers (fire demo_page demo_script (Intersection 0 [(5, True)]) demo_start) ! 0)"
proof -
  have h1: "classList_contains demo_revealed 5 ''visible''"
    by (simp add: demo_revealed_eval classList_contains_def)
  have h2: "0 < length (observers demo_start)"
    by (simp add: demo_start_eval)
  have h3: "(5, True) \<in> set [(5::nat, True)]"
    by simp
  show ?thesis
    using h1 h2 h3
      visible_never_reverts [of demo_revealed 5 demo_page demo_script
        "[Scroll 300, Intersection 0 [(5, False)], Timeout, Scroll 0]" 0 "[]"]
      visible_never_reverts [of demo_start 5 demo_page demo_script "[]" 0 "[(5, True)]"]
    by blast
qed

lemma demo_checked_eval:
  "demo_checked = demo_state
     \<lparr> classList := (classList demo_state)(5 := [''fade-in'', ''visible'']), observers := [[5]] \<rparr>"
  by (simp add: demo_checked_def demo_start_eval demo_state_def demo_page_def
      checkInitialView_def animatedElements_def classList_contains_def classList_add_def Let_def)

text \<open>Claim C8 as stated says that an element is unobserved once it is visible. The
  timer's viewport check adds the class and has no access to the observer: on the sample
  page the section is then visible and still observed.\<close>

theorem visible_unobserved_counterexample:
  "\<not> (classList_contains demo_checked 5 ''visible'' \<longrightarrow> 5 \<notin> set (observers demo_checked ! 0))"
  by (simp add: demo_checked_eval classList_contains_def)

section \<open>Escape on a page without the toggle\<close>

lemma bare_script_eval:
  "bare_script =
     \<lparr> mobileMenuToggle = None, navLinks = Some 0, navbar = None, navLinksArray = [],
       anchorLinks = [], buttons = [], focusableElements = [] \<rparr>"
  by (simp add: bare_script_def init_def load_def Let_def getElementById_def bare_page_def
      bare_state_def demo_state_def classList_contains_def has_hash_href_def)

lemma bare_start_eval: "bare_start = bare_state\<lparr>observers := [[]]\<rparr>"
  by (simp add: bare_start_def init_def load_def Let_def getElementById_def bare_page_def
      bare_state_def demo_state_def classList_contains_def initScrollAnimations_def
      animatedElements_def)

text \<open>Claim C2 at a page that has the menu container, open, and no toggle: the Escape
  listener removes \<^verbatim>\<open>active\<close> from the container and then throws a TypeError on the null
  toggle.\<close>

theorem escape_without_toggle_throws:
  "mobileMenuToggle bare_script = None \<and> uncaught bare_start = [] \<and>
   classList bare_start 0 = [''nav-links'', ''active''] \<and>
   uncaught (fire bare_page bare_script (Keydown 0 ''Escape'' False) bare_start) = [TypeError] \<and>
   classList (fire bare_page bare_script (Keydown 0 ''Escape'' False) bare_start) 0 =
     [''nav-links'']"
  by (simp add: bare_script_eval bare_start_eval navLinks_keydown_def escape_keydown_def
      classList_contains_def classList_remove_def bare_state_def demo_state_def)

end
